theory Spec2Isabelle
  imports Complex_Main "HOL-Library.Sublist" "HOL-Library.AList"
begin

section \<open>Python strings and POSIX path names\<close>

text \<open>
  A Python \<open>str\<close> is a \<^typ>\<open>string\<close>. The functions of this section are the
  ones of \<open>str\<close> and \<open>posixpath\<close> that \<open>server_sync.py\<close>, \<open>main.py\<close> and
  \<open>recording_tab.py\<close> call, written after the standard library's own code.
\<close>

datatype py_error =
    FileNotFoundError | FileExistsError | NotADirectoryError | IsADirectoryError
  | OSError | ValueError | KeyError | AttributeError

text \<open>\<open>s.rstrip(chars)\<close>: drop every trailing character that occurs in \<open>chars\<close>.\<close>

definition str_rstrip :: "string \<Rightarrow> string \<Rightarrow> string" where
  "str_rstrip s chars = rev (dropWhile (\<lambda>c. c \<in> set chars) (rev s))"

text \<open>
  \<open>s.replace(old, new)\<close>: every non-overlapping occurrence of \<open>old\<close>, found from
  left to right, becomes \<open>new\<close>; an empty \<open>old\<close> matches before every character and
  at the end.
\<close>

function replace_scan :: "string \<Rightarrow> string \<Rightarrow> string \<Rightarrow> string" where
  "replace_scan old new [] = []"
| "replace_scan old new (c # cs) =
     (if old \<noteq> [] \<and> prefix old (c # cs)
      then new @ replace_scan old new (drop (length old) (c # cs))
      else c # replace_scan old new cs)"
  by pat_completeness auto
termination
  by (relation "measure (\<lambda>(old, new, s). length s)") auto

definition str_replace :: "string \<Rightarrow> string \<Rightarrow> string \<Rightarrow> string" where
  "str_replace s old new =
     (if old = [] then new @ concat (map (\<lambda>c. c # new) s) else replace_scan old new s)"

text \<open>\<open>str(n)\<close> for a non-negative integer.\<close>

fun str_of_nat :: "nat \<Rightarrow> string" where
  "str_of_nat n =
     (if n < 10 then [char_of (48 + n)]
      else str_of_nat (n div 10) @ [char_of (48 + n mod 10)])"

declare str_of_nat.simps [simp del]

text \<open>\<open>s.split('/')\<close>.\<close>

fun str_split :: "string \<Rightarrow> string list" where
  "str_split [] = [[]]"
| "str_split (c # cs) =
     (if c = CHR ''/'' then [] # str_split cs
      else (case str_split cs of [] \<Rightarrow> [[c]] | x # xs \<Rightarrow> (c # x) # xs))"

text \<open>\<open>posixpath.basename\<close>: what follows the last slash.\<close>

definition os_path_basename :: "string \<Rightarrow> string" where
  "os_path_basename p = rev (takeWhile (\<lambda>c. c \<noteq> CHR ''/'') (rev p))"

text \<open>
  \<open>posixpath.dirname\<close>: what precedes the basename, without its trailing slashes
  unless it consists of slashes only.
\<close>

definition os_path_dirname :: "string \<Rightarrow> string" where
  "os_path_dirname p =
     (let head = rev (dropWhile (\<lambda>c. c \<noteq> CHR ''/'') (rev p))
      in if head \<noteq> [] \<and> head \<noteq> replicate (length head) (CHR ''/'')
         then str_rstrip head ''/'' else head)"

text \<open>\<open>posixpath.join\<close> of two parts, and of a first part with a list of further parts.\<close>

definition os_path_join :: "string \<Rightarrow> string \<Rightarrow> string" where
  "os_path_join a b =
     (if b \<noteq> [] \<and> hd b = CHR ''/'' then b
      else if a = [] \<or> last a = CHR ''/'' then a @ b
      else a @ ''/'' @ b)"

definition os_path_joins :: "string \<Rightarrow> string list \<Rightarrow> string" where
  "os_path_joins a ps = foldl os_path_join a ps"

text \<open>
  Path resolution. A resolved path is the list of its components below the root
  directory. \<open>abs_comps wd p\<close> is the component list of \<open>os.path.abspath(p)\<close> when
  the working directory is \<open>wd\<close>: \<open>normpath\<close> skips empty and \<open>.\<close> components and
  lets \<open>..\<close> remove the component before it (at the root there is none to remove).
  The model resolves every path this way, which is what the operating system does
  when no component is a symbolic link and every \<open>..\<close> follows an existing directory.
\<close>

definition norm_step :: "string list \<Rightarrow> string \<Rightarrow> string list" where
  "norm_step acc c =
     (if c = [] \<or> c = ''.'' then acc else if c = ''..'' then butlast acc else acc @ [c])"

definition abs_comps :: "string list \<Rightarrow> string \<Rightarrow> string list" where
  "abs_comps wd p =
     foldl norm_step (if p \<noteq> [] \<and> hd p = CHR ''/'' then [] else wd) (str_split p)"

text \<open>
  \<open>posixpath.relpath(path, start)\<close>: as many \<open>..\<close> as \<open>start\<close> has components
  beyond the common prefix, then the rest of \<open>path\<close>; \<open>ValueError\<close> on an empty path.
\<close>

definition os_path_relpath :: "string list \<Rightarrow> string \<Rightarrow> string \<Rightarrow> py_error + string" where
  "os_path_relpath wd path start =
     (if path = [] then Inl ValueError
      else
        let start_list = abs_comps wd start;
            path_list = abs_comps wd path;
            i = length (longest_common_prefix start_list path_list);
            rel_list = replicate (length start_list - i) ''..'' @ drop i path_list
        in if rel_list = [] then Inr ''.''
           else Inr (os_path_joins (hd rel_list) (tl rel_list)))"

section \<open>The file system and its environment\<close>

text \<open>
  The file system is an association list from resolved paths to entries, in directory
  listing order; the root directory \<open>[]\<close> always exists. It has no symbolic links.
  A byte is a \<^typ>\<open>char\<close>.
\<close>

type_synonym bytes = "char list"

datatype entry = File bytes | Dir

type_synonym fs = "(string list \<times> entry) list"

definition lookup :: "fs \<Rightarrow> string list \<Rightarrow> entry option" where
  "lookup fs q = (if q = [] then Some Dir else map_of fs q)"

definition content_of :: "fs \<Rightarrow> string list \<Rightarrow> bytes" where
  "content_of fs q = (case lookup fs q of Some (File bs) \<Rightarrow> bs | _ \<Rightarrow> [])"

text \<open>
  What the program cannot control is an environment \<open>e\<close>: the working directory, the
  platform's \<open>os.path.basename\<close> (\<open>posixpath.basename\<close> above, or \<open>ntpath.basename\<close>,
  which also splits at a backslash and after a drive or share name), which
  system calls fail for a reason outside the model (permissions, a full disk, a lost
  network share), the size \<open>stat\<close> reports for a directory, the clock, and the
  rendering of a float with two decimals. \<open>elapsed e q k\<close> is the time in seconds between
  the start of the copy to \<open>q\<close> and the \<open>k\<close>-th later reading of the clock. Floats are
  modelled as reals.
\<close>

datatype io_op =
    OpStat "string list" | OpScandir "string list" | OpMkdir "string list"
  | OpOpenRead "string list" | OpOpenWrite "string list"
  | OpRead "string list" nat | OpWrite "string list" nat
  | OpCopystat "string list" "string list"

record env =
  cwd :: "string list"
  os_basename :: "string \<Rightarrow> string"
  faulty :: "io_op \<Rightarrow> bool"
  dir_size :: "string list \<Rightarrow> nat"
  elapsed :: "string list \<Rightarrow> nat \<Rightarrow> real"
  fmt2f :: "real \<Rightarrow> string"

text \<open>
  The state a run changes: the file system and the lines given to the \<open>log\<close> callback
  so far. A call returns a value and the new state, or raises with the state reached.
\<close>

record world =
  files :: fs
  log :: "string list"

datatype 'a res = Ok 'a world | Raised py_error world

text \<open>\<open>os.stat\<close>, and \<open>os.path.exists\<close>, \<open>os.path.getsize\<close> on top of it.\<close>

definition os_stat :: "env \<Rightarrow> fs \<Rightarrow> string \<Rightarrow> py_error + entry" where
  "os_stat e fs p =
     (if p = [] then Inl FileNotFoundError
      else
        let q = abs_comps (cwd e) p
        in if faulty e (OpStat q) then Inl OSError
           else (case lookup fs q of None \<Rightarrow> Inl FileNotFoundError | Some en \<Rightarrow> Inr en))"

definition os_path_exists :: "env \<Rightarrow> fs \<Rightarrow> string \<Rightarrow> bool" where
  "os_path_exists e fs p = (case os_stat e fs p of Inl _ \<Rightarrow> False | Inr _ \<Rightarrow> True)"

definition os_path_getsize :: "env \<Rightarrow> fs \<Rightarrow> string \<Rightarrow> py_error + nat" where
  "os_path_getsize e fs p =
     (case os_stat e fs p of
        Inl x \<Rightarrow> Inl x
      | Inr (File bs) \<Rightarrow> Inr (length bs)
      | Inr Dir \<Rightarrow> Inr (dir_size e (abs_comps (cwd e) p)))"

text \<open>
  \<open>os.makedirs(p, exist_ok=True)\<close>: every missing directory on the way to \<open>p\<close> is
  created, outermost first; a file on the way, or at \<open>p\<close>, is an error, and so is a
  \<open>mkdir\<close> that fails. The directories created before the error stay.
\<close>

fun mkdir_chain :: "env \<Rightarrow> string list \<Rightarrow> string list \<Rightarrow> fs \<Rightarrow> py_error option \<times> fs" where
  "mkdir_chain e pre [] fs = (None, fs)"
| "mkdir_chain e pre (c # cs) fs =
     (case lookup fs (pre @ [c]) of
        Some Dir \<Rightarrow> mkdir_chain e (pre @ [c]) cs fs
      | Some (File _) \<Rightarrow> (Some (if cs = [] then FileExistsError else NotADirectoryError), fs)
      | None \<Rightarrow>
          if faulty e (OpMkdir (pre @ [c])) then (Some OSError, fs)
          else mkdir_chain e (pre @ [c]) cs (AList.update (pre @ [c]) Dir fs))"

definition os_makedirs :: "env \<Rightarrow> string \<Rightarrow> world \<Rightarrow> unit res" where
  "os_makedirs e p w =
     (if p = [] then Raised FileNotFoundError w
      else
        (case mkdir_chain e [] (abs_comps (cwd e) p) (files w) of
           (None, fs') \<Rightarrow> Ok () (w\<lparr>files := fs'\<rparr>)
         | (Some x, fs') \<Rightarrow> Raised x (w\<lparr>files := fs'\<rparr>)))"

text \<open>
  \<open>open(p, "rb")\<close> gives the resolved path of a readable file; \<open>open(p, "wb")\<close>
  creates the file or truncates it, in an existing directory.
\<close>

definition open_rb :: "env \<Rightarrow> fs \<Rightarrow> string \<Rightarrow> py_error + string list" where
  "open_rb e fs p =
     (if p = [] then Inl FileNotFoundError
      else
        let q = abs_comps (cwd e) p
        in if faulty e (OpOpenRead q) then Inl OSError
           else (case lookup fs q of
                   None \<Rightarrow> Inl FileNotFoundError
                 | Some Dir \<Rightarrow> Inl IsADirectoryError
                 | Some (File _) \<Rightarrow> Inr q))"

definition open_wb :: "env \<Rightarrow> string \<Rightarrow> world \<Rightarrow> (string list) res" where
  "open_wb e p w =
     (if p = [] then Raised FileNotFoundError w
      else
        let q = abs_comps (cwd e) p
        in if faulty e (OpOpenWrite q) then Raised OSError w
           else if lookup (files w) q = Some Dir then Raised IsADirectoryError w
           else (case lookup (files w) (butlast q) of
                   None \<Rightarrow> Raised FileNotFoundError w
                 | Some (File _) \<Rightarrow> Raised NotADirectoryError w
                 | Some Dir \<Rightarrow> Ok q (w\<lparr>files := AList.update q (File []) (files w)\<rparr>)))"

text \<open>
  \<open>shutil.copystat\<close>: time stamps and permission bits are not part of an entry, so
  all the model keeps of the call is whether it raises.
\<close>

definition copystat :: "env \<Rightarrow> string \<Rightarrow> string \<Rightarrow> world \<Rightarrow> unit res" where
  "copystat e src dst w =
     (if faulty e (OpCopystat (abs_comps (cwd e) src) (abs_comps (cwd e) dst))
      then Raised OSError w else Ok () w)"

text \<open>
  \<open>os.scandir\<close> as \<open>os.walk\<close> uses it: the names in a directory, those of directories
  apart from the others; \<open>None\<close> when the directory cannot be listed.
\<close>

definition os_scandir :: "env \<Rightarrow> fs \<Rightarrow> string \<Rightarrow> (string list \<times> string list) option" where
  "os_scandir e fs p =
     (if p = [] then None
      else
        let q = abs_comps (cwd e) p
        in if faulty e (OpScandir q) \<or> lookup fs q \<noteq> Some Dir then None
           else
             let names = map last (filter (\<lambda>k. k \<noteq> [] \<and> butlast k = q) (map fst fs))
             in Some (filter (\<lambda>n. lookup fs (q @ [n]) = Some Dir) names,
                      filter (\<lambda>n. lookup fs (q @ [n]) \<noteq> Some Dir) names))"

section \<open>\<open>services/server_sync.py\<close>\<close>

definition COPY_CHUNK_BYTES :: nat where
  "COPY_CHUNK_BYTES = 4 * 1024 * 1024"

definition ensure_dir :: "env \<Rightarrow> string \<Rightarrow> world \<Rightarrow> unit res" where
  "ensure_dir e p w = os_makedirs e p w"

definition needs_copy :: "env \<Rightarrow> fs \<Rightarrow> string \<Rightarrow> string \<Rightarrow> bool" where
  "needs_copy e fs src dst =
     (if \<not> os_path_exists e fs dst then True
      else (case os_path_getsize e fs src of
              Inl _ \<Rightarrow> True
            | Inr a \<Rightarrow> (case os_path_getsize e fs dst of Inl _ \<Rightarrow> True | Inr b \<Rightarrow> a \<noteq> b)))"

text \<open>
  The \<open>while True\<close> loop of \<open>copy_with_progress\<close>. \<open>rest\<close> is what \<open>fsrc\<close> has
  left to read, \<open>copied\<close> the bytes written so far and \<open>k\<close> the number of clock
  readings so far. Each round reads one chunk, appends it to the destination and logs
  a progress line; the loop returns \<open>copied\<close> and \<open>k\<close>.
\<close>

definition progress_line :: "env \<Rightarrow> string \<Rightarrow> nat \<Rightarrow> nat \<Rightarrow> real \<Rightarrow> string" where
  "progress_line e src copied tot bps =
     ''Copying '' @ os_basename e src @ '': '' @ str_of_nat copied @ ''/'' @
     str_of_nat tot @ '' bytes ('' @ fmt2f e (bps / 1024 / 1024) @ '' MB/s)''"

function copy_loop ::
  "env \<Rightarrow> string \<Rightarrow> string list \<Rightarrow> string list \<Rightarrow> nat \<Rightarrow> bytes \<Rightarrow> nat \<Rightarrow> nat \<Rightarrow> world
   \<Rightarrow> (nat \<times> nat) res" where
  "copy_loop e src sq dq tot rest copied k w =
     (if faulty e (OpRead sq copied) then Raised OSError w
      else
        let chunk = take COPY_CHUNK_BYTES rest
        in if chunk = [] then Ok (copied, k) w
           else if faulty e (OpWrite dq copied) then Raised OSError w
           else
             let fs1 = AList.update dq (File (content_of (files w) dq @ chunk)) (files w);
                 copied1 = copied + length chunk;
                 dt = max (elapsed e dq (Suc k)) (1 / 1000000);
                 bps = real copied1 / dt
             in copy_loop e src sq dq tot (drop COPY_CHUNK_BYTES rest) copied1 (Suc k)
                  (w\<lparr>files := fs1, log := log w @ [progress_line e src copied1 tot bps]\<rparr>))"
  by pat_completeness auto
termination
  by (relation "measure (\<lambda>(e, src, sq, dq, tot, rest, copied, k, w). length rest)")
     (auto simp: COPY_CHUNK_BYTES_def)

declare copy_loop.simps [simp del]

definition copy_with_progress :: "env \<Rightarrow> string \<Rightarrow> string \<Rightarrow> world \<Rightarrow> (bool \<times> real) res" where
  "copy_with_progress e src dst w =
     (case ensure_dir e (os_path_dirname dst) w of
        Raised x w1 \<Rightarrow> Raised x w1
      | Ok _ w1 \<Rightarrow>
          if \<not> needs_copy e (files w1) src dst then Ok (False, 0) w1
          else
            (case os_path_getsize e (files w1) src of
               Inl x \<Rightarrow> Raised x w1
             | Inr tot \<Rightarrow>
                 (case open_rb e (files w1) src of
                    Inl x \<Rightarrow> Raised x w1
                  | Inr sq \<Rightarrow>
                      (case open_wb e dst w1 of
                         Raised x w2 \<Rightarrow> Raised x w2
                       | Ok dq w2 \<Rightarrow>
                           (case copy_loop e src sq dq tot (content_of (files w2) sq) 0 0 w2 of
                              Raised x w3 \<Rightarrow> Raised x w3
                            | Ok (copied, k) w3 \<Rightarrow>
                                let w4 = (case copystat e src dst w3 of
                                            Raised _ w' \<Rightarrow> w' | Ok _ w' \<Rightarrow> w');
                                    bps = real copied / max (elapsed e dq (Suc k)) (1 / 1000000)
                                in Ok (True, bps) w4)))))"

text \<open>The two summary lines; the check mark is U+2713 in UTF-8.\<close>

definition check_mark :: string where
  "check_mark = [CHR 0xE2, CHR 0x9C, CHR 0x93]"

definition already_line :: "string \<Rightarrow> string" where
  "already_line rel = check_mark @ '' Already on server: '' @ rel"

definition copied_line :: "env \<Rightarrow> string \<Rightarrow> real \<Rightarrow> string" where
  "copied_line e rel bps =
     check_mark @ '' Copied to server at '' @ rel @ '' @ '' @ fmt2f e (bps / 1024 / 1024) @
     '' MB/s''"

text \<open>A \<open>for\<close> loop whose body may raise: the first exception ends the loop.\<close>

fun for_each :: "('a \<Rightarrow> world \<Rightarrow> unit res) \<Rightarrow> 'a list \<Rightarrow> world \<Rightarrow> unit res" where
  "for_each body [] w = Ok () w"
| "for_each body (x # xs) w =
     (case body x w of Raised err w1 \<Rightarrow> Raised err w1 | Ok _ w1 \<Rightarrow> for_each body xs w1)"

text \<open>The body of \<open>for f in files\<close>.\<close>

definition sync_file :: "env \<Rightarrow> string \<Rightarrow> string \<Rightarrow> string \<Rightarrow> string \<Rightarrow> world \<Rightarrow> unit res" where
  "sync_file e server_root root_dir dst_dir f w =
     (let src = os_path_join root_dir f;
          dst = os_path_join dst_dir f
      in case copy_with_progress e src dst w of
           Raised x w1 \<Rightarrow> Raised x w1
         | Ok (copied, bps) w1 \<Rightarrow>
             (case os_path_relpath (cwd e) dst server_root of
                Inl x \<Rightarrow> Raised x w1
              | Inr rel \<Rightarrow>
                  if \<not> copied then Ok () (w1\<lparr>log := log w1 @ [already_line rel]\<rparr>)
                  else Ok () (w1\<lparr>log := log w1 @ [copied_line e rel bps]\<rparr>)))"

text \<open>The body of \<open>for root, dirs, files in os.walk(project_dir)\<close>.\<close>

definition visit_dir ::
  "env \<Rightarrow> string \<Rightarrow> string \<Rightarrow> string \<Rightarrow> string \<Rightarrow> string list \<Rightarrow> string list \<Rightarrow> world \<Rightarrow> unit res" where
  "visit_dir e project_dir server_root dst_project root_dir dirs fls w =
     (case os_path_relpath (cwd e) root_dir project_dir of
        Inl x \<Rightarrow> Raised x w
      | Inr rel \<Rightarrow>
          let dst_dir = (if rel \<noteq> ''.'' then os_path_join dst_project rel else dst_project)
          in case ensure_dir e dst_dir w of
               Raised x w1 \<Rightarrow> Raised x w1
             | Ok _ w1 \<Rightarrow>
                 (case for_each (\<lambda>d. ensure_dir e (os_path_join dst_dir d)) dirs w1 of
                    Raised x w2 \<Rightarrow> Raised x w2
                  | Ok _ w2 \<Rightarrow> for_each (sync_file e server_root root_dir dst_dir) fls w2))"

text \<open>
  \<open>os.walk\<close>, top down, with the loop body run at each directory before its
  subdirectories are listed: a directory that cannot be listed is skipped, and each
  subdirectory is walked in the state the walk before it left. The first argument bounds
  the depth of the walk; \<open>None\<close> means the bound was reached, not that the walk ended.
\<close>

fun walk_each :: "(string \<Rightarrow> world \<Rightarrow> unit res option) \<Rightarrow> string list \<Rightarrow> world \<Rightarrow> unit res option" where
  "walk_each walk [] w = Some (Ok () w)"
| "walk_each walk (t # ts) w =
     (case walk t w of
        None \<Rightarrow> None
      | Some (Raised err w1) \<Rightarrow> Some (Raised err w1)
      | Some (Ok _ w1) \<Rightarrow> walk_each walk ts w1)"

primrec walk_sync ::
  "nat \<Rightarrow> env \<Rightarrow> string \<Rightarrow> string \<Rightarrow> string \<Rightarrow> string \<Rightarrow> world \<Rightarrow> unit res option" where
  "walk_sync 0 e project_dir server_root dst_project root_dir w = None"
| "walk_sync (Suc n) e project_dir server_root dst_project root_dir w =
     (case os_scandir e (files w) root_dir of
        None \<Rightarrow> Some (Ok () w)
      | Some (dirs, fls) \<Rightarrow>
          (case visit_dir e project_dir server_root dst_project root_dir dirs fls w of
             Raised x w1 \<Rightarrow> Some (Raised x w1)
           | Ok _ w1 \<Rightarrow>
               walk_each (walk_sync n e project_dir server_root dst_project)
                 (map (os_path_join root_dir) dirs) w1))"

text \<open>
  Lines 43 and 44: \<open>project_name = os.path.basename(project_dir.rstrip("/\\"))\<close> and
  \<open>dst_project = os.path.join(server_root, project_name)\<close>.
\<close>

definition project_name_of :: "env \<Rightarrow> string \<Rightarrow> string" where
  "project_name_of e project_dir = os_basename e (str_rstrip project_dir [CHR ''/'', CHR 0x5C])"

definition sync_project_to_server ::
  "nat \<Rightarrow> env \<Rightarrow> string \<Rightarrow> string \<Rightarrow> world \<Rightarrow> unit res option" where
  "sync_project_to_server fuel e project_dir server_root w =
     (let project_name = project_name_of e project_dir;
          dst_project = os_path_join server_root project_name
      in case ensure_dir e dst_project w of
           Raised x w1 \<Rightarrow> Some (Raised x w1)
         | Ok _ w1 \<Rightarrow> walk_sync fuel e project_dir server_root dst_project project_dir w1)"

section \<open>The file inventory of a session\<close>

text \<open>
  \<open>meta["file_list"]\<close> is a list of dictionaries. A dictionary is an association list
  in insertion order, a value a string or something else, and the dictionaries live
  in a heap: the list holds their addresses, and the loop assigns to them in place.
\<close>

datatype pyval = PStr string | PInt int | PNone

type_synonym pydict = "(string \<times> pyval) list"

type_synonym heap = "nat \<Rightarrow> pydict"

text \<open>
  The two statements of the loop body, the same in \<open>MainWindow._copy_to_server\<close>
  (\<open>main.py\<close>, lines 87 and 88) and in \<open>RecordingTab.update_file_list\<close>
  (\<open>recording_tab.py\<close>, lines 239 and 240).
\<close>

definition server_path_of :: "env \<Rightarrow> fs \<Rightarrow> string \<Rightarrow> string \<Rightarrow> string \<Rightarrow> string" where
  "server_path_of e fs session_dir server_session_dir p =
     (let spath = str_replace p session_dir server_session_dir
      in if os_path_exists e fs spath then spath else [])"

definition annotate_item :: "env \<Rightarrow> fs \<Rightarrow> string \<Rightarrow> string \<Rightarrow> pydict \<Rightarrow> py_error + pydict" where
  "annotate_item e fs session_dir server_session_dir item =
     (case map_of item ''path'' of
        None \<Rightarrow> Inl KeyError
      | Some (PStr p) \<Rightarrow>
          Inr (AList.update ''server_path''
                 (PStr (server_path_of e fs session_dir server_session_dir p)) item)
      | Some _ \<Rightarrow> Inl AttributeError)"

text \<open>The loop \<open>for item in file_list\<close>: an exception leaves the items before it annotated.\<close>

fun annotate_file_list ::
  "env \<Rightarrow> fs \<Rightarrow> string \<Rightarrow> string \<Rightarrow> nat list \<Rightarrow> heap \<Rightarrow> py_error option \<times> heap" where
  "annotate_file_list e fs session_dir server_session_dir [] h = (None, h)"
| "annotate_file_list e fs session_dir server_session_dir (a # as) h =
     (case annotate_item e fs session_dir server_session_dir (h a) of
        Inl x \<Rightarrow> (Some x, h)
      | Inr item \<Rightarrow>
          annotate_file_list e fs session_dir server_session_dir as (h(a := item)))"

text \<open>The directories the two callers pass to the loop.\<close>

definition copy_to_server_annotate ::
  "env \<Rightarrow> fs \<Rightarrow> string \<Rightarrow> string \<Rightarrow> string \<Rightarrow> string \<Rightarrow> string \<Rightarrow> nat list \<Rightarrow> heap
   \<Rightarrow> py_error option \<times> heap" where
  "copy_to_server_annotate e fs raw_root proj_name animal session server_dir file_list h =
     (let server_project = os_path_join server_dir proj_name;
          session_dir = os_path_joins raw_root [proj_name, animal, session]
      in annotate_file_list e fs session_dir
           (os_path_joins server_project [animal, session]) file_list h)"



section \<open>Auxiliary notions and example data\<close>

text \<open>\<open>dir_chain fs q\<close>: the directory \<open>q\<close> exists, and so does every directory above it.\<close>

definition dir_chain :: "fs \<Rightarrow> string list \<Rightarrow> bool" where
  "dir_chain fs q = (\<forall>k. prefix k q \<longrightarrow> lookup fs k = Some Dir)"

text \<open>An environment in which no system call fails, and a few small file systems.\<close>

definition example_env :: env where
  "example_env =
     \<lparr>cwd = [''home''], os_basename = os_path_basename, faulty = (\<lambda>_. False), dir_size = (\<lambda>_. 4096),
      elapsed = (\<lambda>_ _. 1), fmt2f = (\<lambda>_. ''0.00'')\<rparr>"

definition example_sizes_fs :: fs where
  "example_sizes_fs =
     [([''raw''], Dir), ([''raw'', ''a''], File ''xy''),
      ([''srv''], Dir), ([''srv'', ''a''], File ''zw''), ([''srv'', ''c''], File ''longer'')]"


text \<open>The path a record holds, when it holds one.\<close>

definition path_of :: "pydict \<Rightarrow> string" where
  "path_of item = (case map_of item ''path'' of Some (PStr p) \<Rightarrow> p | _ \<Rightarrow> [])"

text \<open>The environment \<open>e\<close> with \<open>shutil.copystat\<close> failing where \<open>b\<close> says.\<close>

definition with_copystat_faults :: "(string list \<Rightarrow> string list \<Rightarrow> bool) \<Rightarrow> env \<Rightarrow> env" where
  "with_copystat_faults b e =
     e\<lparr>faulty := (\<lambda>op. case op of OpCopystat s d \<Rightarrow> b s d | _ \<Rightarrow> faulty e op)\<rparr>"


definition example_fresh_fs :: fs where
  "example_fresh_fs =
     [([''raw''], Dir), ([''raw'', ''P''], Dir), ([''raw'', ''P'', ''a''], File ''xy''),
      ([''raw'', ''P'', ''b''], File ''q''), ([''srv''], Dir)]"

text \<open>Environments in which one system call fails.\<close>

definition example_write_fault_env :: env where
  "example_write_fault_env =
     example_env\<lparr>faulty := (\<lambda>op. op = OpWrite [''srv'', ''P'', ''a''] 0)\<rparr>"




definition example_server_fs :: fs where
  "example_server_fs =
     [([''srv''], Dir), ([''srv'', ''P''], Dir), ([''srv'', ''P'', ''A''], Dir),
      ([''srv'', ''P'', ''A'', ''S''], Dir), ([''srv'', ''P'', ''A'', ''S'', ''x.bin''], File ''xy'')]"

definition example_legacy_fs :: fs where
  "example_legacy_fs = [([''old''], Dir), ([''old'', ''x.bin''], File ''xy'')]"

definition example_heap :: heap where
  "example_heap =
     (\<lambda>a. if a = 0 then [(''path'', PStr ''/raw/P/A/S/x.bin''), (''size'', PInt 2)] else [])"

section \<open>Change detection\<close>

text \<open>
  C3. \<open>_needs_copy\<close> returns true when the destination does not exist; when it exists
  and both sizes can be read, it returns true exactly when the sizes differ; a failing
  \<open>stat\<close> of either path gives true; two files of equal size give false whatever
  their contents.
\<close>

theorem needs_copy_by_size:
  "(\<not> os_path_exists e fs dst \<longrightarrow> needs_copy e fs src dst) \<and>
   (os_path_exists e fs dst \<longrightarrow> os_path_getsize e fs src = Inr a \<longrightarrow>
      os_path_getsize e fs dst = Inr b \<longrightarrow> needs_copy e fs src dst = (a \<noteq> b)) \<and>
   (os_stat e fs src = Inl x \<longrightarrow> needs_copy e fs src dst) \<and>
   (os_stat e fs dst = Inl x \<longrightarrow> needs_copy e fs src dst) \<and>
   (os_stat e fs src = Inr (File bs) \<longrightarrow> os_stat e fs dst = Inr (File bs') \<longrightarrow>
      length bs = length bs' \<longrightarrow> \<not> needs_copy e fs src dst)"
  by (auto simp: needs_copy_def os_path_exists_def os_path_getsize_def
      split: sum.splits entry.splits)

lemmas example_sizes_eval =
  os_stat_def example_env_def abs_comps_def norm_step_def lookup_def example_sizes_fs_def

theorem needs_copy_by_size_witness:
  "needs_copy example_env example_sizes_fs ''/raw/a'' ''/srv/missing'' \<and>
   needs_copy example_env example_sizes_fs ''/raw/missing'' ''/srv/a'' \<and>
   needs_copy example_env example_sizes_fs ''/raw/a'' ''/srv/c'' \<and>
   \<not> needs_copy example_env example_sizes_fs ''/raw/a'' ''/srv/a'' \<and>
   ''xy'' \<noteq> ''zw''"
proof -
  have s1: "os_stat example_env example_sizes_fs ''/srv/missing'' = Inl FileNotFoundError"
    by (simp add: example_sizes_eval)
  have s2: "os_stat example_env example_sizes_fs ''/raw/missing'' = Inl FileNotFoundError"
    by (simp add: example_sizes_eval)
  have s3: "os_stat example_env example_sizes_fs ''/raw/a'' = Inr (File ''xy'')"
    by (simp add: example_sizes_eval)
  have s4: "os_stat example_env example_sizes_fs ''/srv/a'' = Inr (File ''zw'')"
    by (simp add: example_sizes_eval)
  have s5: "os_stat example_env example_sizes_fs ''/srv/c'' = Inr (File ''longer'')"
    by (simp add: example_sizes_eval)
  have c1: "needs_copy example_env example_sizes_fs ''/raw/a'' ''/srv/missing''"
    using needs_copy_by_size
      [of example_env example_sizes_fs "''/srv/missing''" "''/raw/a''"] s1
    by blast
  have c2: "needs_copy example_env example_sizes_fs ''/raw/missing'' ''/srv/a''"
    using needs_copy_by_size
      [of example_env example_sizes_fs "''/srv/a''" "''/raw/missing''"] s2
    by blast
  have c3: "needs_copy example_env example_sizes_fs ''/raw/a'' ''/srv/c''"
    using needs_copy_by_size
      [of example_env example_sizes_fs "''/srv/c''" "''/raw/a''" 2 6] s3 s5
    by (simp add: os_path_exists_def os_path_getsize_def)
  have c4: "\<not> needs_copy example_env example_sizes_fs ''/raw/a'' ''/srv/a''"
    using needs_copy_by_size
      [of example_env example_sizes_fs "''/srv/a''" "''/raw/a''" _ _ _ "''xy''" "''zw''"]
      s3 s4
    by simp
  show ?thesis using c1 c2 c3 c4 by simp
qed

section \<open>The name of the mirrored project\<close>

lemma rstrip_append: "set t \<subseteq> set cs \<Longrightarrow> str_rstrip (p @ t) cs = str_rstrip p cs"
  by (induction t rule: rev_induct) (auto simp: str_rstrip_def)

lemma posix_name_empty_iff:
  "os_path_basename (str_rstrip p [CHR ''/'', CHR 0x5C]) = [] \<longleftrightarrow> set p \<subseteq> {CHR ''/'', CHR 0x5C}"
  unfolding os_path_basename_def str_rstrip_def
  by (induction p rule: rev_induct) (auto split: if_splits)

text \<open>
  C10, as amended. For a project directory \<open>p\<close> followed by any number of slashes and
  backslashes \<open>t\<close>, the project name is the basename of \<open>p\<close> without its own trailing
  separators, whatever the platform's basename is, and \<open>sync_project_to_server\<close>
  creates the directory \<open>os_path_join sr (project_name_of e p)\<close> and mirrors into it:
  the separators in \<open>t\<close> change neither. The name is empty exactly when that basename
  is; with \<open>posixpath.basename\<close> this is when \<open>p\<close> has no other character than the
  two separators.
\<close>

theorem destination_ignores_trailing_separators:
  "set t \<subseteq> {CHR ''/'', CHR 0x5C} \<longrightarrow>
     project_name_of e (p @ t) = os_basename e (str_rstrip p [CHR ''/'', CHR 0x5C]) \<and>
     sync_project_to_server n e (p @ t) sr w =
       (case ensure_dir e (os_path_join sr (project_name_of e p)) w of
          Raised x w1 \<Rightarrow> Some (Raised x w1)
        | Ok u w1 \<Rightarrow>
            walk_sync n e (p @ t) sr (os_path_join sr (project_name_of e p)) (p @ t) w1) \<and>
     (os_basename e = os_path_basename \<longrightarrow>
        (project_name_of e (p @ t) = [] \<longleftrightarrow> set p \<subseteq> {CHR ''/'', CHR 0x5C}))"
proof
  assume t: "set t \<subseteq> {CHR ''/'', CHR 0x5C}"
  have r: "str_rstrip (p @ t) [CHR ''/'', CHR 0x5C] = str_rstrip p [CHR ''/'', CHR 0x5C]"
    using t by (intro rstrip_append) simp
  have n: "project_name_of e (p @ t) = project_name_of e p"
    by (simp add: project_name_of_def r)
  show "project_name_of e (p @ t) = os_basename e (str_rstrip p [CHR ''/'', CHR 0x5C]) \<and>
     sync_project_to_server n e (p @ t) sr w =
       (case ensure_dir e (os_path_join sr (project_name_of e p)) w of
          Raised x w1 \<Rightarrow> Some (Raised x w1)
        | Ok u w1 \<Rightarrow>
            walk_sync n e (p @ t) sr (os_path_join sr (project_name_of e p)) (p @ t) w1) \<and>
     (os_basename e = os_path_basename \<longrightarrow>
        (project_name_of e (p @ t) = [] \<longleftrightarrow> set p \<subseteq> {CHR ''/'', CHR 0x5C}))"
    unfolding sync_project_to_server_def Let_def n
    using posix_name_empty_iff[of p] by (simp add: project_name_of_def)
qed

theorem destination_ignores_trailing_separators_witness:
  "project_name_of example_env (''/raw/P'' @ ''//'') = ''P'' \<and>
   sync_project_to_server 2 example_env (''/raw/P'' @ ''//'') ''/srv''
       \<lparr>files = example_fresh_fs, log = []\<rparr> =
     (case ensure_dir example_env ''/srv/P'' \<lparr>files = example_fresh_fs, log = []\<rparr> of
        Raised x w1 \<Rightarrow> Some (Raised x w1)
      | Ok u w1 \<Rightarrow> walk_sync 2 example_env (''/raw/P'' @ ''//'') ''/srv'' ''/srv/P''
                    (''/raw/P'' @ ''//'') w1)"
proof -
  have t: "set ''//'' \<subseteq> {CHR ''/'', CHR 0x5C}" by simp
  have a: "project_name_of example_env ''/raw/P'' = ''P''"
    by (simp add: project_name_of_def example_env_def os_path_basename_def str_rstrip_def)
  have j: "os_path_join ''/srv'' ''P'' = ''/srv/P''"
    by (simp add: os_path_join_def)
  show ?thesis
    using destination_ignores_trailing_separators
      [where t = "''//''" and p = "''/raw/P''" and e = example_env and n = 2
         and sr = "''/srv''" and w = "\<lparr>files = example_fresh_fs, log = []\<rparr>"] t
    unfolding a j
    by (simp add: project_name_of_def example_env_def os_path_basename_def str_rstrip_def)
qed

text \<open>
  The claim as stated fails for the root directory: its name is empty, the destination
  project directory is \<open>/srv/\<close>, and the directory that the first step of
  \<open>sync_project_to_server\<close> creates is the server root itself.
\<close>

theorem root_project_destination_counterexample:
  "project_name_of example_env ''/'' = [] \<and>
   os_path_join ''/srv'' (project_name_of example_env ''/'') = ''/srv/'' \<and>
   ensure_dir example_env ''/srv/'' \<lparr>files = [], log = []\<rparr>
     = Ok () \<lparr>files = [([''srv''], Dir)], log = []\<rparr>"
  by (simp add: project_name_of_def example_env_def os_path_basename_def str_rstrip_def
      os_path_join_def ensure_dir_def os_makedirs_def abs_comps_def norm_step_def lookup_def)

section \<open>Directories\<close>






section \<open>A copy that is not needed\<close>






section \<open>Failures\<close>

lemma copystat_fields:
  "cwd (with_copystat_faults b e) = cwd e"
  "dir_size (with_copystat_faults b e) = dir_size e"
  "elapsed (with_copystat_faults b e) = elapsed e"
  "fmt2f (with_copystat_faults b e) = fmt2f e"
  "os_basename (with_copystat_faults b e) = os_basename e"
  "faulty (with_copystat_faults b e) (OpStat q) = faulty e (OpStat q)"
  "faulty (with_copystat_faults b e) (OpMkdir q) = faulty e (OpMkdir q)"
  "faulty (with_copystat_faults b e) (OpOpenRead q) = faulty e (OpOpenRead q)"
  "faulty (with_copystat_faults b e) (OpOpenWrite q) = faulty e (OpOpenWrite q)"
  "faulty (with_copystat_faults b e) (OpRead q c) = faulty e (OpRead q c)"
  "faulty (with_copystat_faults b e) (OpWrite q c) = faulty e (OpWrite q c)"
  by (simp_all add: with_copystat_faults_def)

lemma mkdir_chain_copystat:
  "mkdir_chain (with_copystat_faults b e) pre cs fs = mkdir_chain e pre cs fs"
  by (induction cs arbitrary: pre fs)
     (auto simp: copystat_fields split: option.splits entry.splits)

lemma ensure_dir_copystat: "ensure_dir (with_copystat_faults b e) p w = ensure_dir e p w"
  by (simp add: ensure_dir_def os_makedirs_def mkdir_chain_copystat copystat_fields)

lemma os_stat_copystat: "os_stat (with_copystat_faults b e) fs p = os_stat e fs p"
  by (simp add: os_stat_def copystat_fields)

lemma getsize_copystat:
  "os_path_getsize (with_copystat_faults b e) fs p = os_path_getsize e fs p"
  unfolding os_path_getsize_def os_stat_copystat copystat_fields by (rule refl)

lemma needs_copy_copystat: "needs_copy (with_copystat_faults b e) fs src dst = needs_copy e fs src dst"
  unfolding needs_copy_def os_path_exists_def getsize_copystat os_stat_copystat by (rule refl)

lemma open_rb_copystat: "open_rb (with_copystat_faults b e) fs p = open_rb e fs p"
  by (simp add: open_rb_def copystat_fields)

lemma open_wb_copystat: "open_wb (with_copystat_faults b e) p w = open_wb e p w"
  by (simp add: open_wb_def copystat_fields)

lemma progress_line_copystat:
  "progress_line (with_copystat_faults b e) src c t r = progress_line e src c t r"
  by (simp add: progress_line_def copystat_fields)

lemma copy_loop_copystat:
  "copy_loop (with_copystat_faults b e) src sq dq tot rest copied k w
     = copy_loop e src sq dq tot rest copied k w"
proof (induction e src sq dq tot rest copied k w rule: copy_loop.induct)
  case (1 e src sq dq tot rest copied k w)
  let ?e' = "with_copystat_faults b e"
  show ?case
  proof (cases "faulty e (OpRead sq copied) \<or> take COPY_CHUNK_BYTES rest = [] \<or>
                faulty e (OpWrite dq copied)")
    case True
    have "copy_loop ?e' src sq dq tot rest copied k w =
          (if faulty e (OpRead sq copied) then Raised OSError w
           else if take COPY_CHUNK_BYTES rest = [] then Ok (copied, k) w else Raised OSError w)"
      using True by (subst copy_loop.simps) (auto simp: copystat_fields Let_def)
    moreover have "copy_loop e src sq dq tot rest copied k w =
          (if faulty e (OpRead sq copied) then Raised OSError w
           else if take COPY_CHUNK_BYTES rest = [] then Ok (copied, k) w else Raised OSError w)"
      using True by (subst copy_loop.simps) (auto simp: Let_def)
    ultimately show ?thesis by simp
  next
    case False
    then have nr: "\<not> faulty e (OpRead sq copied)" and ne: "take COPY_CHUNK_BYTES rest \<noteq> []"
      and nw: "\<not> faulty e (OpWrite dq copied)" by auto
    define w1 where "w1 = w\<lparr>files := AList.update dq
          (File (content_of (files w) dq @ take COPY_CHUNK_BYTES rest)) (files w),
        log := log w @ [progress_line e src (copied + length (take COPY_CHUNK_BYTES rest)) tot
          (real (copied + length (take COPY_CHUNK_BYTES rest)) /
             max (elapsed e dq (Suc k)) (1 / 1000000))]\<rparr>"
    have ih: "copy_loop ?e' src sq dq tot (drop COPY_CHUNK_BYTES rest)
               (copied + length (take COPY_CHUNK_BYTES rest)) (Suc k) w1
            = copy_loop e src sq dq tot (drop COPY_CHUNK_BYTES rest)
               (copied + length (take COPY_CHUNK_BYTES rest)) (Suc k) w1"
      unfolding w1_def by (rule "1.IH"[OF nr refl ne nw refl refl refl refl])
    have l: "copy_loop ?e' src sq dq tot rest copied k w =
             copy_loop ?e' src sq dq tot (drop COPY_CHUNK_BYTES rest)
               (copied + length (take COPY_CHUNK_BYTES rest)) (Suc k) w1"
      unfolding w1_def
      by (subst copy_loop.simps)
         (simp only: copystat_fields progress_line_copystat nr ne nw if_False Let_def)
    have r: "copy_loop e src sq dq tot rest copied k w =
             copy_loop e src sq dq tot (drop COPY_CHUNK_BYTES rest)
               (copied + length (take COPY_CHUNK_BYTES rest)) (Suc k) w1"
      unfolding w1_def
      by (subst copy_loop.simps) (simp only: nr ne nw if_False Let_def)
    show ?thesis unfolding l r by (rule ih)
  qed
qed

lemma copystat_world: "(case copystat e src dst w of Raised _ w' \<Rightarrow> w' | Ok _ w' \<Rightarrow> w') = w"
  by (simp add: copystat_def)

lemma copy_with_progress_copystat:
  "copy_with_progress (with_copystat_faults b e) src dst w = copy_with_progress e src dst w"
proof -
  show ?thesis
    unfolding copy_with_progress_def ensure_dir_copystat needs_copy_copystat getsize_copystat
      open_rb_copystat open_wb_copystat copy_loop_copystat copystat_world copystat_fields Let_def
    by (rule refl)
qed

lemma for_each_raises:
  "for_each body pre w = Ok u w1 \<Longrightarrow> body f w1 = Raised x w2 \<Longrightarrow>
   for_each body (pre @ f # post) w = Raised x w2"
  by (induction pre arbitrary: w) (auto split: res.splits)

lemma walk_each_raises:
  "walk_each wk pre w = Some (Ok u w1) \<Longrightarrow> wk t w1 = Some (Raised x w2) \<Longrightarrow>
   walk_each wk (pre @ t # post) w = Some (Raised x w2)"
  by (induction pre arbitrary: w) (auto split: res.splits option.splits)

text \<open>
  C9. A failing read and a failing write make the copy loop raise; an exception of the
  loop leaves \<open>copy_with_progress\<close>, an exception of \<open>copy_with_progress\<close> leaves the
  loop body \<open>sync_file\<close>, an exception of a loop body ends its \<open>for\<close> loop in the state
  reached, whatever items follow, and so on through \<open>visit_dir\<close>, the walk of a directory
  and of its subdirectories, up to \<open>sync_project_to_server\<close>. Whether
  \<open>shutil.copystat\<close> fails changes neither the result of \<open>copy_with_progress\<close> nor
  the state it leaves.
\<close>

theorem copy_failure_aborts_the_run:
  "(faulty e (OpRead sq copied) \<longrightarrow>
      copy_loop e src sq dq tot rest copied k w = Raised OSError w) \<and>
   (\<not> faulty e (OpRead sq copied) \<longrightarrow> rest \<noteq> [] \<longrightarrow> faulty e (OpWrite dq copied) \<longrightarrow>
      copy_loop e src sq dq tot rest copied k w = Raised OSError w) \<and>
   (ensure_dir e (os_path_dirname dst) w = Ok u w1 \<longrightarrow> needs_copy e (files w1) src dst \<longrightarrow>
    os_path_getsize e (files w1) src = Inr tot \<longrightarrow> open_rb e (files w1) src = Inr sq \<longrightarrow>
    open_wb e dst w1 = Ok dq w2 \<longrightarrow>
    copy_loop e src sq dq tot (content_of (files w2) sq) 0 0 w2 = Raised x w3 \<longrightarrow>
      copy_with_progress e src dst w = Raised x w3) \<and>
   (copy_with_progress e (os_path_join root_dir f) (os_path_join dst_dir f) w = Raised x w1 \<longrightarrow>
      sync_file e sr root_dir dst_dir f w = Raised x w1) \<and>
   (for_each body pre w = Ok u w1 \<longrightarrow> body f w1 = Raised x w2 \<longrightarrow>
      for_each body (pre @ f # post) w = Raised x w2) \<and>
   (os_path_relpath (cwd e) root_dir pd = Inr rel \<longrightarrow>
    dst_dir = (if rel \<noteq> ''.'' then os_path_join dp rel else dp) \<longrightarrow>
    ensure_dir e dst_dir w = Ok u w1 \<longrightarrow>
    for_each (\<lambda>d. ensure_dir e (os_path_join dst_dir d)) dirs w1 = Ok u w2 \<longrightarrow>
    for_each (sync_file e sr root_dir dst_dir) fls w2 = Raised x w3 \<longrightarrow>
      visit_dir e pd sr dp root_dir dirs fls w = Raised x w3) \<and>
   (os_scandir e (files w) root_dir = Some (dirs, fls) \<longrightarrow>
    visit_dir e pd sr dp root_dir dirs fls w = Raised x w1 \<longrightarrow>
      walk_sync (Suc n) e pd sr dp root_dir w = Some (Raised x w1)) \<and>
   (walk_each wk ts w = Some (Ok u w1) \<longrightarrow> wk t w1 = Some (Raised x w2) \<longrightarrow>
      walk_each wk (ts @ t # ts') w = Some (Raised x w2)) \<and>
   (os_scandir e (files w) root_dir = Some (dirs, fls) \<longrightarrow>
    visit_dir e pd sr dp root_dir dirs fls w = Ok u w1 \<longrightarrow>
    walk_each (walk_sync n e pd sr dp) (map (os_path_join root_dir) dirs) w1
      = Some (Raised x w2) \<longrightarrow>
      walk_sync (Suc n) e pd sr dp root_dir w = Some (Raised x w2)) \<and>
   (ensure_dir e (os_path_join sr (project_name_of e pd)) w = Ok u w1 \<longrightarrow>
    walk_sync n e pd sr (os_path_join sr (project_name_of e pd)) pd w1 = Some (Raised x w2) \<longrightarrow>
      sync_project_to_server n e pd sr w = Some (Raised x w2)) \<and>
   copy_with_progress (with_copystat_faults b e) src dst w = copy_with_progress e src dst w"
proof (intro conjI impI)
  show "copy_loop e src sq dq tot rest copied k w = Raised OSError w"
    if "faulty e (OpRead sq copied)"
    using that by (subst copy_loop.simps) simp
  show "copy_loop e src sq dq tot rest copied k w = Raised OSError w"
    if "\<not> faulty e (OpRead sq copied)" "rest \<noteq> []" "faulty e (OpWrite dq copied)"
  proof -
    have "take COPY_CHUNK_BYTES rest \<noteq> []"
      using that(2) by (cases rest) (auto simp: COPY_CHUNK_BYTES_def)
    then show ?thesis using that by (subst copy_loop.simps) (simp add: Let_def)
  qed
  show "copy_with_progress e src dst w = Raised x w3"
    if "ensure_dir e (os_path_dirname dst) w = Ok u w1" "needs_copy e (files w1) src dst"
      "os_path_getsize e (files w1) src = Inr tot" "open_rb e (files w1) src = Inr sq"
      "open_wb e dst w1 = Ok dq w2"
      "copy_loop e src sq dq tot (content_of (files w2) sq) 0 0 w2 = Raised x w3"
    unfolding copy_with_progress_def that(1) using that(2-6) by simp
  show "sync_file e sr root_dir dst_dir f w = Raised x w1"
    if a: "copy_with_progress e (os_path_join root_dir f) (os_path_join dst_dir f) w = Raised x w1"
    unfolding sync_file_def Let_def a by simp
  show "for_each body (pre @ f # post) w = Raised x w2"
    if "for_each body pre w = Ok u w1" "body f w1 = Raised x w2"
    using that by (rule for_each_raises)
  show "visit_dir e pd sr dp root_dir dirs fls w = Raised x w3"
    if a: "os_path_relpath (cwd e) root_dir pd = Inr rel"
      and d: "dst_dir = (if rel \<noteq> ''.'' then os_path_join dp rel else dp)"
      and b: "ensure_dir e dst_dir w = Ok u w1"
      and c: "for_each (\<lambda>d. ensure_dir e (os_path_join dst_dir d)) dirs w1 = Ok u w2"
      and f: "for_each (sync_file e sr root_dir dst_dir) fls w2 = Raised x w3"
    unfolding visit_dir_def a sum.case Let_def d[symmetric] b res.case c f by (rule refl)
  show "walk_sync (Suc n) e pd sr dp root_dir w = Some (Raised x w1)"
    if a: "os_scandir e (files w) root_dir = Some (dirs, fls)"
      and b: "visit_dir e pd sr dp root_dir dirs fls w = Raised x w1"
    by (simp add: a b)
  show "walk_each wk (ts @ t # ts') w = Some (Raised x w2)"
    if "walk_each wk ts w = Some (Ok u w1)" "wk t w1 = Some (Raised x w2)"
    using that by (rule walk_each_raises)
  show "walk_sync (Suc n) e pd sr dp root_dir w = Some (Raised x w2)"
    if a: "os_scandir e (files w) root_dir = Some (dirs, fls)"
      and b: "visit_dir e pd sr dp root_dir dirs fls w = Ok u w1"
      and c: "walk_each (walk_sync n e pd sr dp) (map (os_path_join root_dir) dirs) w1
                = Some (Raised x w2)"
    by (simp add: a b c)
  show "sync_project_to_server n e pd sr w = Some (Raised x w2)"
    if a: "ensure_dir e (os_path_join sr (project_name_of e pd)) w = Ok u w1"
      and b: "walk_sync n e pd sr (os_path_join sr (project_name_of e pd)) pd w1
                = Some (Raised x w2)"
    unfolding sync_project_to_server_def Let_def a using b by simp
  show "copy_with_progress (with_copystat_faults b e) src dst w = copy_with_progress e src dst w"
    by (rule copy_with_progress_copystat)
qed

lemmas run_eval =
  os_stat_def os_path_exists_def os_path_getsize_def abs_comps_def
  norm_step_def lookup_def ensure_dir_def os_makedirs_def
  os_path_join_def os_path_joins_def needs_copy_def Let_def os_scandir_def visit_dir_def sync_file_def
  os_path_relpath_def copy_with_progress_def open_rb_def open_wb_def copystat_def
  content_of_def project_name_of_def os_path_basename_def str_rstrip_def
  already_line_def copied_line_def check_mark_def

lemma fresh_ensure: "ensure_dir example_write_fault_env ''/srv/P'' \<lparr>files = example_fresh_fs, log = []\<rparr>
   = Ok () \<lparr>files = example_fresh_fs @ [([''srv'', ''P''], Dir)], log = []\<rparr>"
  by (simp add: run_eval example_write_fault_env_def example_env_def example_fresh_fs_def)

lemma fresh_scandir: "os_scandir example_write_fault_env (example_fresh_fs @ [([''srv'', ''P''], Dir)]) ''/raw/P''
   = Some ([], [''a'', ''b''])"
  by (simp add: run_eval example_write_fault_env_def example_env_def example_fresh_fs_def)

lemma project_relpath: "os_path_relpath [''home''] ''/raw/P'' ''/raw/P'' = Inr ''.''"
  by (simp add: run_eval)

lemma dirname_a: "os_path_dirname ''/srv/P/a'' = ''/srv/P''"
  by (simp add: os_path_dirname_def str_rstrip_def Let_def)


lemma fresh_copy_a: "copy_with_progress example_write_fault_env ''/raw/P/a'' ''/srv/P/a''
     \<lparr>files = example_fresh_fs @ [([''srv'', ''P''], Dir)], log = []\<rparr>
   = Raised OSError \<lparr>files = example_fresh_fs @ [([''srv'', ''P''], Dir), ([''srv'', ''P'', ''a''], File [])], log = []\<rparr>"
  unfolding copy_with_progress_def dirname_a
  by (simp add: run_eval copy_loop.simps COPY_CHUNK_BYTES_def example_write_fault_env_def example_env_def example_fresh_fs_def)

lemma tree_joins: "os_path_join ''/raw/P'' ''a'' = ''/raw/P/a''" "os_path_join ''/srv/P'' ''a'' = ''/srv/P/a''"
  "os_path_join ''/raw/P'' ''b'' = ''/raw/P/b''" "os_path_join ''/srv/P'' ''b'' = ''/srv/P/b''"
  by (simp_all add: os_path_join_def)

lemma fault_cwd: "cwd example_write_fault_env = [''home'']"
  by (simp add: example_write_fault_env_def example_env_def)

lemma fresh_ensure_again: "ensure_dir example_write_fault_env ''/srv/P'' \<lparr>files = example_fresh_fs @ [([''srv'', ''P''], Dir)], log = []\<rparr>
   = Ok () \<lparr>files = example_fresh_fs @ [([''srv'', ''P''], Dir)], log = []\<rparr>"
  by (simp add: run_eval example_write_fault_env_def example_env_def example_fresh_fs_def)

lemma fresh_sync_a: "sync_file example_write_fault_env ''/srv'' ''/raw/P'' ''/srv/P'' ''a''
     \<lparr>files = example_fresh_fs @ [([''srv'', ''P''], Dir)], log = []\<rparr>
   = Raised OSError \<lparr>files = example_fresh_fs @ [([''srv'', ''P''], Dir), ([''srv'', ''P'', ''a''], File [])], log = []\<rparr>"
  unfolding sync_file_def Let_def tree_joins fresh_copy_a by simp

lemma fresh_visit: "visit_dir example_write_fault_env ''/raw/P'' ''/srv'' ''/srv/P'' ''/raw/P'' [] [''a'', ''b'']
     \<lparr>files = example_fresh_fs @ [([''srv'', ''P''], Dir)], log = []\<rparr>
   = Raised OSError \<lparr>files = example_fresh_fs @ [([''srv'', ''P''], Dir), ([''srv'', ''P'', ''a''], File [])], log = []\<rparr>"
  unfolding visit_dir_def fault_cwd project_relpath by (simp add: fresh_ensure_again fresh_sync_a)

lemma fresh_walk: "walk_sync 2 example_write_fault_env ''/raw/P'' ''/srv'' ''/srv/P'' ''/raw/P''
     \<lparr>files = example_fresh_fs @ [([''srv'', ''P''], Dir)], log = []\<rparr>
   = Some (Raised OSError \<lparr>files = example_fresh_fs @ [([''srv'', ''P''], Dir), ([''srv'', ''P'', ''a''], File [])], log = []\<rparr>)"
  by (simp add: numeral_2_eq_2 fresh_scandir fresh_visit)

lemma fresh_name: "os_path_join ''/srv'' (project_name_of example_write_fault_env ''/raw/P'') = ''/srv/P''"
  by (simp add: project_name_of_def example_write_fault_env_def example_env_def
      os_path_basename_def str_rstrip_def os_path_join_def)

theorem copy_failure_aborts_the_run_witness:
  "sync_project_to_server 2 example_write_fault_env ''/raw/P'' ''/srv''
       \<lparr>files = example_fresh_fs, log = []\<rparr>
     = Some (Raised OSError
         \<lparr>files = example_fresh_fs @ [([''srv'', ''P''], Dir), ([''srv'', ''P'', ''a''], File [])],
          log = []\<rparr>) \<and>
   lookup (example_fresh_fs @ [([''srv'', ''P''], Dir), ([''srv'', ''P'', ''a''], File [])])
     [''srv'', ''P'', ''b''] = None"
proof -
  note top = copy_failure_aborts_the_run
    [THEN conjunct2, THEN conjunct2, THEN conjunct2, THEN conjunct2, THEN conjunct2,
     THEN conjunct2, THEN conjunct2, THEN conjunct2, THEN conjunct2, THEN conjunct1, rule_format]
  have "sync_project_to_server 2 example_write_fault_env ''/raw/P'' ''/srv''
       \<lparr>files = example_fresh_fs, log = []\<rparr>
     = Some (Raised OSError
         \<lparr>files = example_fresh_fs @ [([''srv'', ''P''], Dir), ([''srv'', ''P'', ''a''], File [])],
          log = []\<rparr>)"
    apply (rule top[where u = "()"])
     apply (simp only: fresh_name fresh_ensure)
    apply (simp only: fresh_name)
    apply (rule fresh_walk)
    done
  moreover have "lookup (example_fresh_fs @ [([''srv'', ''P''], Dir), ([''srv'', ''P'', ''a''], File [])])
     [''srv'', ''P'', ''b''] = None"
    by (simp add: lookup_def example_fresh_fs_def)
  ultimately show ?thesis by simp
qed

section \<open>The lines of the log\<close>





























section \<open>Reconciliation of the file inventory\<close>

lemma replace_scan_absent:
  "old \<noteq> [] \<Longrightarrow> \<not> sublist old s \<Longrightarrow> replace_scan old new s = s"
proof (induction s)
  case Nil
  then show ?case by simp
next
  case (Cons c cs)
  have a: "\<not> prefix old (c # cs)" using Cons.prems(2) prefix_imp_sublist by blast
  have b: "\<not> sublist old cs" using Cons.prems(2) by (simp add: sublist_Cons_right)
  show ?case using a Cons.IH[OF Cons.prems(1) b] by simp
qed


lemma str_replace_absent: "old \<noteq> [] \<Longrightarrow> \<not> sublist old s \<Longrightarrow> str_replace s old new = s"
  by (simp add: str_replace_def replace_scan_absent)


lemma annotate_item_path:
  "map_of item ''path'' = Some (PStr p) \<Longrightarrow>
   annotate_item e fs sd ssd item
     = Inr (AList.update ''server_path'' (PStr (server_path_of e fs sd ssd (path_of item))) item)"
  by (simp add: annotate_item_def path_of_def)

lemma path_after_update:
  "map_of (AList.update ''server_path'' v item) ''path'' = map_of item ''path''"
  by (simp add: update_conv')

lemma path_of_after_update: "path_of (AList.update ''server_path'' v item) = path_of item"
  by (simp add: path_of_def path_after_update)

lemma annotate_file_list_effect:
  "(\<forall>a\<in>set refs. \<exists>p. map_of (h a) ''path'' = Some (PStr p)) \<Longrightarrow>
   annotate_file_list e fs sd ssd refs h
     = (None, \<lambda>a. if a \<in> set refs
                   then AList.update ''server_path''
                          (PStr (server_path_of e fs sd ssd (path_of (h a)))) (h a)
                   else h a)"
proof (induction refs arbitrary: h)
  case Nil
  then show ?case by simp
next
  case (Cons a refs)
  let ?upd = "\<lambda>item. AList.update ''server_path''
                 (PStr (server_path_of e fs sd ssd (path_of item))) item"
  obtain p where p: "map_of (h a) ''path'' = Some (PStr p)" using Cons.prems by auto
  have step: "annotate_item e fs sd ssd (h a) = Inr (?upd (h a))"
    using annotate_item_path[OF p] .
  let ?h1 = "h(a := ?upd (h a))"
  have pre: "\<forall>b\<in>set refs. \<exists>p. map_of (?h1 b) ''path'' = Some (PStr p)"
    using Cons.prems p by (auto simp: path_after_update)
  have "annotate_file_list e fs sd ssd (a # refs) h = annotate_file_list e fs sd ssd refs ?h1"
    by (simp add: step)
  also have "\<dots> = (None, \<lambda>b. if b \<in> set refs then ?upd (?h1 b) else ?h1 b)"
    by (rule Cons.IH[OF pre])
  also have "(\<lambda>b. if b \<in> set refs then ?upd (?h1 b) else ?h1 b)
           = (\<lambda>b. if b \<in> set (a # refs) then ?upd (h b) else h b)"
    by (rule ext) (simp add: path_of_after_update)
  finally show ?case .
qed


lemma session_replace:
  "str_replace ''/raw/P/A/S/x.bin'' ''/raw/P/A/S'' ''/srv/P/A/S'' = ''/srv/P/A/S/x.bin''"
  by (simp add: str_replace_def)

lemma session_server_path:
  "server_path_of example_env example_server_fs ''/raw/P/A/S'' ''/srv/P/A/S'' ''/raw/P/A/S/x.bin''
     = ''/srv/P/A/S/x.bin''"
  unfolding server_path_of_def Let_def session_replace
  by (simp add: os_path_exists_def os_stat_def example_env_def abs_comps_def norm_step_def
      lookup_def example_server_fs_def)

lemma session_dirs:
  "os_path_joins ''/raw'' [''P'', ''A'', ''S''] = ''/raw/P/A/S''"
  "os_path_joins (os_path_join ''/srv'' ''P'') [''A'', ''S''] = ''/srv/P/A/S''"
  by (simp_all add: os_path_joins_def os_path_join_def)

lemma example_heap_paths:
  "\<forall>a\<in>set [0]. \<exists>p. map_of (example_heap a) ''path'' = Some (PStr p)"
  by (simp add: example_heap_def)



text \<open>
  C5. For a record whose path does not contain the session directory, the loop body does
  not raise, and \<open>replace\<close> leaves the path as it is: the \<open>server_path\<close> becomes the
  record's own path when that path exists, and the empty string only when it does not.
\<close>

theorem unrelated_path_is_its_own_server_path:
  "(sd \<noteq> [] \<longrightarrow> \<not> sublist sd p \<longrightarrow>
      server_path_of e fs sd ssd p = (if os_path_exists e fs p then p else [])) \<and>
   (map_of item ''path'' = Some (PStr p) \<longrightarrow>
      annotate_item e fs sd ssd item
        = Inr (AList.update ''server_path'' (PStr (server_path_of e fs sd ssd p)) item))"
  by (simp add: server_path_of_def str_replace_absent annotate_item_def)

theorem unrelated_path_is_its_own_server_path_witness:
  "annotate_item example_env example_legacy_fs ''/raw/P/A/S'' ''/srv/P/A/S''
     [(''path'', PStr ''/old/x.bin'')]
     = Inr [(''path'', PStr ''/old/x.bin''), (''server_path'', PStr ''/old/x.bin'')]"
proof -
  have n: "\<not> sublist ''/raw/P/A/S'' ''/old/x.bin''"
    by (simp add: sublist_Cons_right)
  have x: "os_path_exists example_env example_legacy_fs ''/old/x.bin''"
    by (simp add: os_path_exists_def os_stat_def example_env_def abs_comps_def norm_step_def
        lookup_def example_legacy_fs_def)
  have s: "server_path_of example_env example_legacy_fs ''/raw/P/A/S'' ''/srv/P/A/S''
             ''/old/x.bin'' = ''/old/x.bin''"
    using unrelated_path_is_its_own_server_path
      [where sd = "''/raw/P/A/S''" and p = "''/old/x.bin''" and e = example_env
         and fs = example_legacy_fs and ssd = "''/srv/P/A/S''", THEN conjunct1] n x
    by simp
  have m: "map_of [(''path'', PStr ''/old/x.bin'')] ''path'' = Some (PStr ''/old/x.bin'')"
    by simp
  show ?thesis
    using unrelated_path_is_its_own_server_path
      [where item = "[(''path'', PStr ''/old/x.bin'')]" and p = "''/old/x.bin''"
         and e = example_env and fs = example_legacy_fs and sd = "''/raw/P/A/S''"
         and ssd = "''/srv/P/A/S''", THEN conjunct2, rule_format, OF m]
    unfolding s by simp
qed

text \<open>
  C6, as amended. The loop returns no new sequence: it assigns \<open>server_path\<close> in the
  records the list refers to. After it, every record of the list holds the new
  \<open>server_path\<close> and its other keys as before, and every other record of the heap is
  unchanged. The file system is only read.
\<close>

theorem reconciliation_assigns_in_place:
  "(\<forall>a\<in>set refs. \<exists>p. map_of (h a) ''path'' = Some (PStr p)) \<longrightarrow>
     (\<exists>h'. annotate_file_list e fs sd ssd refs h = (None, h') \<and>
        (\<forall>a. a \<notin> set refs \<longrightarrow> h' a = h a) \<and>
        (\<forall>a\<in>set refs.
           map_of (h' a) ''server_path''
             = Some (PStr (server_path_of e fs sd ssd (path_of (h a)))) \<and>
           (\<forall>k. k \<noteq> ''server_path'' \<longrightarrow> map_of (h' a) k = map_of (h a) k)))"
proof
  assume a: "\<forall>a\<in>set refs. \<exists>p. map_of (h a) ''path'' = Some (PStr p)"
  show "\<exists>h'. annotate_file_list e fs sd ssd refs h = (None, h') \<and>
        (\<forall>a. a \<notin> set refs \<longrightarrow> h' a = h a) \<and>
        (\<forall>a\<in>set refs.
           map_of (h' a) ''server_path''
             = Some (PStr (server_path_of e fs sd ssd (path_of (h a)))) \<and>
           (\<forall>k. k \<noteq> ''server_path'' \<longrightarrow> map_of (h' a) k = map_of (h a) k))"
    unfolding annotate_file_list_effect[OF a] by (simp add: update_conv')
qed

theorem reconciliation_assigns_in_place_witness:
  "\<exists>h'. annotate_file_list example_env example_server_fs ''/raw/P/A/S'' ''/srv/P/A/S'' [0]
           example_heap = (None, h') \<and>
         h' 1 = example_heap 1 \<and>
         map_of (h' 0) ''server_path'' = Some (PStr ''/srv/P/A/S/x.bin'') \<and>
         map_of (h' 0) ''path'' = map_of (example_heap 0) ''path''"
proof -
  have p: "path_of (example_heap 0) = ''/raw/P/A/S/x.bin''"
    by (simp add: path_of_def example_heap_def)
  from reconciliation_assigns_in_place
    [where refs = "[0]" and h = example_heap and e = example_env and fs = example_server_fs
       and sd = "''/raw/P/A/S''" and ssd = "''/srv/P/A/S''", THEN mp, OF example_heap_paths]
  obtain h' where h': "annotate_file_list example_env example_server_fs ''/raw/P/A/S''
        ''/srv/P/A/S'' [0] example_heap = (None, h')"
    "\<forall>a. a \<notin> set [0] \<longrightarrow> h' a = example_heap a"
    "\<forall>a\<in>set [0]. map_of (h' a) ''server_path''
        = Some (PStr (server_path_of example_env example_server_fs ''/raw/P/A/S'' ''/srv/P/A/S''
                        (path_of (example_heap a)))) \<and>
        (\<forall>k. k \<noteq> ''server_path'' \<longrightarrow> map_of (h' a) k = map_of (example_heap a) k)"
    by blast
  have "h' 1 = example_heap 1" using h'(2) by simp
  moreover have "map_of (h' 0) ''server_path'' = Some (PStr ''/srv/P/A/S/x.bin'')"
    using h'(3) by (simp add: p session_server_path)
  moreover have "map_of (h' 0) ''path'' = map_of (example_heap 0) ''path''"
    using h'(3) by simp
  ultimately show ?thesis using h'(1) by blast
qed

text \<open>
  The claim as stated fails: after \<open>_copy_to_server\<close> has run its loop, the record at
  address 0, which the caller's list still refers to, holds a \<open>server_path\<close> key that
  it did not hold before.
\<close>

theorem record_mutated_in_place_counterexample:
  "snd (copy_to_server_annotate example_env example_server_fs ''/raw'' ''P'' ''A'' ''S'' ''/srv''
          [0] example_heap) 0
     = [(''path'', PStr ''/raw/P/A/S/x.bin''), (''size'', PInt 2),
        (''server_path'', PStr ''/srv/P/A/S/x.bin'')] \<and>
   example_heap 0 = [(''path'', PStr ''/raw/P/A/S/x.bin''), (''size'', PInt 2)]"
  unfolding copy_to_server_annotate_def Let_def session_dirs
  by (simp add: annotate_item_def example_heap_def session_server_path)

end
